theory Spec2Isabelle
  imports Main
begin

section \<open>The retry agent worker of the custom-agent notebook\<close>

text \<open>
  The notebook defines \<^verbatim>\<open>RetryAgentWorker\<close>, a subclass of the framework's
  \<^verbatim>\<open>CustomSimpleAgentWorker\<close>, together with the helpers
  \<^verbatim>\<open>get_chat_prompt_template\<close>, \<^verbatim>\<open>ResponseEval\<close> and \<^verbatim>\<open>DEFAULT_PROMPT_STR\<close>.
  The worker's methods are embedded below. Python names that begin with an underscore
  lose it (\<^verbatim>\<open>_run_step\<close> is \<open>run_step\<close>, \<^verbatim>\<open>__init__\<close> is \<open>init\<close>).

  The router query engine and the LLM program are calls into the framework and, behind it,
  a language model. They are parameters of the model (record \<open>library\<close>): each may return
  a value or raise, and each may answer differently on every call, so it receives the
  list of calls made before it.
\<close>

subsection \<open>Data\<close>

text \<open>An exception: the \<^verbatim>\<open>ValueError\<close> raised by the constructor, or whatever an
  external call raises.\<close>

datatype exn = ValueError string | Raised string

datatype MessageRole = SYSTEM | USER | ASSISTANT

record ChatMessage =
  role :: MessageRole
  content :: string

text \<open>\<^verbatim>\<open>ChatPromptTemplate(message_templates=messages)\<close>.\<close>

type_synonym ChatPromptTemplate = "ChatMessage list"

record ResponseEval =
  has_error :: bool
  new_question :: string
  explanation :: string

text \<open>A tool is a \<^verbatim>\<open>QueryEngineTool\<close> or some other \<^verbatim>\<open>BaseTool\<close>; the argument is
  \<^verbatim>\<open>tool.metadata.name\<close>.\<close>

datatype BaseTool = QueryEngineTool string | OtherTool string



datatype Selector = PydanticSingleSelector

text \<open>The router object, as the arguments of its constructor.\<close>

record RouterQueryEngine =
  selector :: Selector
  query_engine_tools :: "BaseTool list"
  router_verbose :: bool

text \<open>The LLM object, as \<^verbatim>\<open>OpenAI(model="gpt-4")\<close> builds it.\<close>

datatype LLM = OpenAI string

record Task =
  input :: string

datatype AgentChatResponse = AgentChatResponse (response: string)

text \<open>
  The task state is the dict returned by \<^verbatim>\<open>_initialize_state\<close> and mutated by
  \<^verbatim>\<open>_run_step\<close>. Its keys are \<^verbatim>\<open>"count"\<close>, \<^verbatim>\<open>"current_reasoning"\<close> and, once a step has
  completed, \<^verbatim>\<open>"new_input"\<close>: \<open>new_input = None\<close> is the dict without that key.
\<close>

record state =
  count :: int
  current_reasoning :: "(string \<times> string) list"
  new_input :: "string option"

text \<open>
  The calls a step makes into the framework, with what each returned:
  \<^verbatim>\<open>self._router_query_engine.query(q)\<close> and
  \<^verbatim>\<open>llm_program(query_str=q, response_str=r)\<close> on a prompt template. A world is the list
  of calls made so far, oldest first.
\<close>

datatype 'r event =
    Query string "exn + 'r"
  | Program ChatPromptTemplate string string "exn + ResponseEval"

type_synonym 'r world = "'r event list"

record 'r library =
  query :: "RouterQueryEngine \<Rightarrow> 'r world \<Rightarrow> string \<Rightarrow> exn + 'r"
  str :: "'r \<Rightarrow> string"
  llm_program :: "LLM \<Rightarrow> 'r world \<Rightarrow> ChatPromptTemplate \<Rightarrow> string \<Rightarrow> string \<Rightarrow> exn + ResponseEval"

text \<open>Two framework objects the worker only stores.\<close>

datatype CallbackManager = CallbackManager string

datatype ObjectRetriever = ObjectRetriever string

text \<open>
  The public fields of the worker: the two declared in the notebook (\<^verbatim>\<open>prompt_str\<close>,
  \<^verbatim>\<open>max_iterations\<close>) and the base properties of \<^verbatim>\<open>CustomSimpleAgentWorker\<close> that the
  notebook lists. The worker adds the private router attribute.
\<close>

record WorkerFields =
  prompt_str :: string
  max_iterations :: int
  tools :: "BaseTool list"
  tool_retriever :: "ObjectRetriever option"
  llm :: LLM
  callback_manager :: "CallbackManager option"
  verbose :: bool

record RetryAgentWorker = WorkerFields +
  router_query_engine :: RouterQueryEngine

subsection \<open>Helpers\<close>


definition get_chat_prompt_template :: "string \<Rightarrow> (string \<times> string) list \<Rightarrow> ChatPromptTemplate" where
  "get_chat_prompt_template system_prompt reasoning =
     (let system_msg = \<lparr>role = SYSTEM, content = system_prompt\<rparr>;
          messages = [system_msg]
      in messages @
         map (\<lambda>raw_msg.
                if fst raw_msg = ''user''
                then \<lparr>role = USER, content = snd raw_msg\<rparr>
                else \<lparr>role = ASSISTANT, content = snd raw_msg\<rparr>)
             reasoning)"

subsection \<open>Construction\<close>





subsection \<open>The three operations\<close>

definition initialize_state :: "RetryAgentWorker \<Rightarrow> Task \<Rightarrow> state" where
  "initialize_state self task = \<lparr>count = 0, current_reasoning = [], new_input = None\<rparr>"

text \<open>
  \<^verbatim>\<open>_run_step(self, state, task, input=None)\<close>. The dict is mutated in place, so the state
  comes back also when the step raises. The result is the exception or the pair
  \<^verbatim>\<open>(agent_response, is_done)\<close>, the state, and the world. The console output under
  \<^verbatim>\<open>verbose\<close> is left out.
\<close>

definition run_step ::
  "'r library \<Rightarrow> RetryAgentWorker \<Rightarrow> state \<Rightarrow> Task \<Rightarrow> string option \<Rightarrow> 'r world \<Rightarrow>
     (exn + AgentChatResponse \<times> bool) \<times> state \<times> 'r world" where
  "run_step lib self st task inp w =
     (let new_inp = (if inp \<noteq> None then the inp
                     else if new_input st = None then input task
                     else the (new_input st));
          answer = query lib (router_query_engine self) w new_inp;
          w1 = w @ [Query new_inp answer]
      in case answer of
           Inl e \<Rightarrow> (Inl e, st, w1)
         | Inr resp \<Rightarrow>
             (let st1 = st\<lparr>current_reasoning :=
                            current_reasoning st @
                              [(''user'', new_inp), (''assistant'', str lib resp)]\<rparr>;
                  chat_prompt_tmpl =
                    get_chat_prompt_template (prompt_str self) (current_reasoning st1);
                  evaluation = llm_program lib (llm self) w1 chat_prompt_tmpl
                                 new_inp (str lib resp);
                  w2 = w1 @ [Program chat_prompt_tmpl new_inp (str lib resp) evaluation]
              in case evaluation of
                   Inl e \<Rightarrow> (Inl e, st1, w2)
                 | Inr response_eval \<Rightarrow>
                     (let is_done = (if \<not> has_error response_eval then True else False);
                          st2 = st1\<lparr>new_input := Some (new_question response_eval)\<rparr>
                      in (Inr (AgentChatResponse (str lib resp), is_done), st2, w2))))"

text \<open>\<^verbatim>\<open>_finalize_task\<close> does nothing: it returns \<^verbatim>\<open>None\<close> and leaves the state as it is.\<close>

definition finalize_task :: "RetryAgentWorker \<Rightarrow> state \<Rightarrow> unit \<times> state" where
  "finalize_task self st = ((), st)"

subsection \<open>Drivers\<close>

text \<open>
  A step-wise driver calls \<^verbatim>\<open>_run_step\<close> once per element of a list of optional override
  questions, whatever each call returns; the outcomes are collected in order.
\<close>

fun run_steps ::
  "'r library \<Rightarrow> RetryAgentWorker \<Rightarrow> Task \<Rightarrow> string option list \<Rightarrow> state \<Rightarrow> 'r world \<Rightarrow>
     (exn + AgentChatResponse \<times> bool) list \<times> state \<times> 'r world" where
  "run_steps lib self task [] st w = ([], st, w)"
| "run_steps lib self task (inp # inps) st w =
     (case run_step lib self st task inp w of
        (out, st', w') \<Rightarrow>
          (case run_steps lib self task inps st' w' of
             (outs, st'', w'') \<Rightarrow> (out # outs, st'', w'')))"

text \<open>
  Modelled from the spec: the agent runner that drives a task to completion
  (\<^verbatim>\<open>agent.chat\<close>) is not among the sources. It is the retry loop "repeated
  \<^verbatim>\<open>_run_step\<close> invocations on one task until \<^verbatim>\<open>is_done\<close>", with no override question; an
  exception ends it. The loop may run forever, which is the value \<open>None\<close>.
\<close>

partial_function (option) retry_loop ::
  "'r library \<Rightarrow> RetryAgentWorker \<Rightarrow> Task \<Rightarrow> state \<Rightarrow> 'r world \<Rightarrow>
     ((exn + AgentChatResponse) \<times> state \<times> 'r world) option" where
  "retry_loop lib self task st w =
     (case run_step lib self st task None w of
        (Inl e, st', w') \<Rightarrow> Some (Inl e, st', w')
      | (Inr (agent_response, is_done), st', w') \<Rightarrow>
          if is_done then Some (Inr agent_response, st', w')
          else retry_loop lib self task st' w')"

text \<open>The questions passed to the router in a world, in order: one per router
  invocation.\<close>

fun router_queries :: "'r world \<Rightarrow> string list" where
  "router_queries [] = []"
| "router_queries (Query q a # w) = q # router_queries w"
| "router_queries (Program t q r e # w) = router_queries w"

subsection \<open>Specification-side functions and sample collaborators\<close>

text \<open>
  The question of a step as the specification words it: the override if one is supplied,
  otherwise the rewrite stored by the previous iteration if there is one, otherwise the
  task's original question.
\<close>

definition question_by_priority :: "string option \<Rightarrow> state \<Rightarrow> Task \<Rightarrow> string" where
  "question_by_priority inp st task =
     (case inp of
        Some override \<Rightarrow> override
      | None \<Rightarrow> (case new_input st of Some rewrite \<Rightarrow> rewrite | None \<Rightarrow> input task))"

text \<open>
  What the router returns when it is asked that question, and what the critic returns
  when it is given the transcript extended by that question and the answer \<open>a\<close>.
\<close>

abbreviation router_answer ::
  "'r library \<Rightarrow> RetryAgentWorker \<Rightarrow> state \<Rightarrow> Task \<Rightarrow> string option \<Rightarrow> 'r world \<Rightarrow> exn + 'r" where
  "router_answer lib self st task inp w \<equiv>
     query lib (router_query_engine self) w (question_by_priority inp st task)"

abbreviation critic_evaluation ::
  "'r library \<Rightarrow> RetryAgentWorker \<Rightarrow> state \<Rightarrow> Task \<Rightarrow> string option \<Rightarrow> 'r world \<Rightarrow> 'r \<Rightarrow>
     exn + ResponseEval" where
  "critic_evaluation lib self st task inp w a \<equiv>
     llm_program lib (llm self) (w @ [Query (question_by_priority inp st task) (Inr a)])
       (get_chat_prompt_template (prompt_str self)
          (current_reasoning st @
             [(''user'', question_by_priority inp st task), (''assistant'', str lib a)]))
       (question_by_priority inp st task) (str lib a)"

text \<open>The number of invocations that returned normally among a list of outcomes.\<close>

definition completed_count :: "(exn + 'a) list \<Rightarrow> nat" where
  "completed_count outs = length (filter (\<lambda>out. \<not> isl out) outs)"

text \<open>
  Sample collaborators for the concrete runs. The router of \<open>critic_lib\<close> always answers;
  its critic flags an error exactly on the prompts that \<open>flags\<close> selects and proposes the
  question with a question mark appended. The router of \<open>failing_lib\<close> raises. The router
  of \<open>one_answer_lib\<close> answers one question only and raises on every other; its critic
  always flags. The critic of \<open>flaky_critic_lib\<close> raises when it is called first and
  accepts afterwards.
\<close>

definition critic_lib :: "(ChatPromptTemplate \<Rightarrow> bool) \<Rightarrow> string library" where
  "critic_lib flags =
     \<lparr>query = (\<lambda>router w q. Inr (''answer to: '' @ q)),
      str = (\<lambda>r. r),
      llm_program = (\<lambda>l w tmpl q r.
         Inr \<lparr>has_error = flags tmpl, new_question = q @ ''?'', explanation = ''''\<rparr>)\<rparr>"

definition failing_lib :: "string library" where
  "failing_lib =
     \<lparr>query = (\<lambda>router w q. Inl (Raised ''handler failed'')),
      str = (\<lambda>r. r),
      llm_program = (\<lambda>l w tmpl q r.
         Inr \<lparr>has_error = False, new_question = q, explanation = ''''\<rparr>)\<rparr>"

definition one_answer_lib :: "string library" where
  "one_answer_lib =
     \<lparr>query = (\<lambda>router w q. if q = ''override'' then Inr ''answer to: override''
                              else Inl (Raised ''handler failed'')),
      str = (\<lambda>r. r),
      llm_program = (\<lambda>l w tmpl q r.
         Inr \<lparr>has_error = True, new_question = q @ ''?'', explanation = ''''\<rparr>)\<rparr>"

definition flaky_critic_lib :: "string library" where
  "flaky_critic_lib =
     \<lparr>query = (\<lambda>router w q. Inr (''answer to: '' @ q)),
      str = (\<lambda>r. r),
      llm_program = (\<lambda>l w tmpl q r.
         if length w < 2 then Inl (Raised ''malformed output'')
         else Inr \<lparr>has_error = False, new_question = q, explanation = ''''\<rparr>)\<rparr>"

definition worker_with :: "int \<Rightarrow> RetryAgentWorker" where
  "worker_with n =
     \<lparr>prompt_str = ''judge'', max_iterations = n, tools = [QueryEngineTool ''sql''],
      tool_retriever = None, llm = OpenAI ''gpt-4'', callback_manager = None, verbose = False,
      router_query_engine = \<lparr>selector = PydanticSingleSelector,
         query_engine_tools = [QueryEngineTool ''sql''], router_verbose = False\<rparr>\<rparr>"

definition city_task :: Task where
  "city_task = \<lparr>input = ''q''\<rparr>"




section \<open>Properties of a single step\<close>

text \<open>A step ends in one of three ways: the router raised, the critic raised, or both
  returned.\<close>

lemma run_step_cases:
  assumes "run_step lib self st task inp w = (out, st', w')"
  obtains (router_raised) q e where
      "out = Inl e" "st' = st" "w' = w @ [Query q (Inl e)]"
      "query lib (router_query_engine self) w q = Inl e"
  | (critic_raised) q a e where
      "out = Inl e"
      "st' = st\<lparr>current_reasoning := current_reasoning st @ [(''user'', q), (''assistant'', str lib a)]\<rparr>"
      "w' = w @ [Query q (Inr a),
                 Program (get_chat_prompt_template (prompt_str self) (current_reasoning st'))
                   q (str lib a) (Inl e)]"
      "query lib (router_query_engine self) w q = Inr a"
      "llm_program lib (llm self) (w @ [Query q (Inr a)])
         (get_chat_prompt_template (prompt_str self) (current_reasoning st')) q (str lib a) = Inl e"
  | (completed) q a ev where
      "out = Inr (AgentChatResponse (str lib a), \<not> has_error ev)"
      "st' = st\<lparr>current_reasoning := current_reasoning st @ [(''user'', q), (''assistant'', str lib a)],
                 new_input := Some (new_question ev)\<rparr>"
      "w' = w @ [Query q (Inr a),
                 Program (get_chat_prompt_template (prompt_str self) (current_reasoning st'))
                   q (str lib a) (Inr ev)]"
      "query lib (router_query_engine self) w q = Inr a"
      "llm_program lib (llm self) (w @ [Query q (Inr a)])
         (get_chat_prompt_template (prompt_str self) (current_reasoning st')) q (str lib a) = Inr ev"
  using assms unfolding run_step_def Let_def
  by (auto split: sum.splits)

text \<open>What a step does with the sample collaborators.\<close>

lemma critic_lib_step:
  "run_step (critic_lib flags) self st task inp w =
    (let q = (case inp of Some ov \<Rightarrow> ov
              | None \<Rightarrow> (case new_input st of Some nq \<Rightarrow> nq | None \<Rightarrow> input task));
         a = ''answer to: '' @ q;
         tr = current_reasoning st @ [(''user'', q), (''assistant'', a)];
         t = get_chat_prompt_template (prompt_str self) tr;
         ev = \<lparr>has_error = flags t, new_question = q @ ''?'', explanation = ''''\<rparr>
     in (Inr (AgentChatResponse a, \<not> flags t),
         st\<lparr>current_reasoning := tr, new_input := Some (q @ ''?'')\<rparr>,
         w @ [Query q (Inr a), Program t q a (Inr ev)]))"
  by (auto simp: run_step_def critic_lib_def Let_def)

lemma failing_lib_step:
  "run_step failing_lib self st task inp w =
    (Inl (Raised ''handler failed''), st,
     w @ [Query (case inp of Some ov \<Rightarrow> ov
                 | None \<Rightarrow> (case new_input st of Some nq \<Rightarrow> nq | None \<Rightarrow> input task))
            (Inl (Raised ''handler failed''))])"
  by (auto simp: run_step_def failing_lib_def Let_def)

lemmas sample_defs = critic_lib_def failing_lib_def one_answer_lib_def worker_with_def city_task_def
  initialize_state_def question_by_priority_def

text \<open>What a step returns, by what the router and the critic return on the arguments the
  step gives them.\<close>

lemma run_step_router_raised:
  assumes "router_answer lib self st task inp w = Inl e"
  shows "run_step lib self st task inp w =
           (Inl e, st, w @ [Query (question_by_priority inp st task) (Inl e)])"
  using assms
  by (cases inp; cases "new_input st")
     (simp_all add: run_step_def Let_def question_by_priority_def)

lemma run_step_critic_raised:
  assumes "router_answer lib self st task inp w = Inr a"
      and "critic_evaluation lib self st task inp w a = Inl e"
  shows "run_step lib self st task inp w =
           (Inl e,
            st\<lparr>current_reasoning := current_reasoning st @
                 [(''user'', question_by_priority inp st task), (''assistant'', str lib a)]\<rparr>,
            w @ [Query (question_by_priority inp st task) (Inr a),
                 Program (get_chat_prompt_template (prompt_str self)
                            (current_reasoning st @
                               [(''user'', question_by_priority inp st task),
                                (''assistant'', str lib a)]))
                   (question_by_priority inp st task) (str lib a) (Inl e)])"
  using assms
  by (cases inp; cases "new_input st")
     (simp_all add: run_step_def Let_def question_by_priority_def)

lemma run_step_completed:
  assumes "router_answer lib self st task inp w = Inr a"
      and "critic_evaluation lib self st task inp w a = Inr ev"
  shows "run_step lib self st task inp w =
           (Inr (AgentChatResponse (str lib a), \<not> has_error ev),
            st\<lparr>current_reasoning := current_reasoning st @
                 [(''user'', question_by_priority inp st task), (''assistant'', str lib a)],
               new_input := Some (new_question ev)\<rparr>,
            w @ [Query (question_by_priority inp st task) (Inr a),
                 Program (get_chat_prompt_template (prompt_str self)
                            (current_reasoning st @
                               [(''user'', question_by_priority inp st task),
                                (''assistant'', str lib a)]))
                   (question_by_priority inp st task) (str lib a) (Inr ev)])"
  using assms
  by (cases inp; cases "new_input st")
     (simp_all add: run_step_def Let_def question_by_priority_def)

text \<open>A step consults the router at one argument only, and the critic at one argument
  only.\<close>

lemma run_step_router_only_there:
  assumes "str lib' = str lib" and "llm_program lib' = llm_program lib"
      and "router_answer lib' self st task inp w = router_answer lib self st task inp w"
  shows "run_step lib' self st task inp w = run_step lib self st task inp w"
proof (cases "router_answer lib self st task inp w")
  case (Inl e)
  with assms show ?thesis
    by (simp add: run_step_router_raised [where e = e])
next
  case a: (Inr a)
  show ?thesis
  proof (cases "critic_evaluation lib self st task inp w a")
    case (Inl e)
    with a assms show ?thesis
      by (simp add: run_step_critic_raised [where a = a and e = e])
  next
    case (Inr ev)
    with a assms show ?thesis
      by (simp add: run_step_completed [where a = a and ev = ev])
  qed
qed

lemma run_step_critic_only_there:
  assumes "str lib' = str lib" and "query lib' = query lib"
      and "router_answer lib self st task inp w = Inr a"
      and "critic_evaluation lib' self st task inp w a = critic_evaluation lib self st task inp w a"
  shows "run_step lib' self st task inp w = run_step lib self st task inp w"
proof (cases "critic_evaluation lib self st task inp w a")
  case (Inl e)
  with assms show ?thesis
    by (simp add: run_step_critic_raised [where a = a and e = e])
next
  case (Inr ev)
  with assms show ?thesis
    by (simp add: run_step_completed [where a = a and ev = ev])
qed

text \<open>
  C3: whenever the router, asked the step's question, returns an answer \<open>a\<close>, and the
  critic, given the transcript extended by that question and answer, returns an
  evaluation \<open>ev\<close>, the step returns the string of that answer as its response, with
  \<open>is_done = True\<close> if \<open>has_error ev\<close> is false and \<open>is_done = False\<close> if it is true.
\<close>

theorem run_step_is_done:
  assumes "router_answer lib self st task inp w = Inr a"
      and "critic_evaluation lib self st task inp w a = Inr ev"
  shows "fst (run_step lib self st task inp w) =
           Inr (AgentChatResponse (str lib a), \<not> has_error ev)"
  using assms by (simp add: run_step_completed)

theorem run_step_is_done_witness:
  "router_answer (critic_lib (\<lambda>t. False)) (worker_with 10)
     (initialize_state (worker_with 10) city_task) city_task None [] = Inr ''answer to: q'' \<and>
   critic_evaluation (critic_lib (\<lambda>t. False)) (worker_with 10)
     (initialize_state (worker_with 10) city_task) city_task None [] ''answer to: q'' =
     Inr \<lparr>has_error = False, new_question = ''q?'', explanation = ''''\<rparr> \<and>
   fst (run_step (critic_lib (\<lambda>t. False)) (worker_with 10)
     (initialize_state (worker_with 10) city_task) city_task None []) =
     Inr (AgentChatResponse ''answer to: q'', True) \<and>
   router_answer (critic_lib (\<lambda>t. True)) (worker_with 10)
     (initialize_state (worker_with 10) city_task) city_task None [] = Inr ''answer to: q'' \<and>
   critic_evaluation (critic_lib (\<lambda>t. True)) (worker_with 10)
     (initialize_state (worker_with 10) city_task) city_task None [] ''answer to: q'' =
     Inr \<lparr>has_error = True, new_question = ''q?'', explanation = ''''\<rparr> \<and>
   fst (run_step (critic_lib (\<lambda>t. True)) (worker_with 10)
     (initialize_state (worker_with 10) city_task) city_task None []) =
     Inr (AgentChatResponse ''answer to: q'', False)"
proof -
  have r1: "router_answer (critic_lib (\<lambda>t. False)) (worker_with 10)
     (initialize_state (worker_with 10) city_task) city_task None [] = Inr ''answer to: q''"
    by (simp add: sample_defs)
  have c1: "critic_evaluation (critic_lib (\<lambda>t. False)) (worker_with 10)
     (initialize_state (worker_with 10) city_task) city_task None [] ''answer to: q'' =
     Inr \<lparr>has_error = False, new_question = ''q?'', explanation = ''''\<rparr>"
    by (simp add: sample_defs)
  have d1: "fst (run_step (critic_lib (\<lambda>t. False)) (worker_with 10)
     (initialize_state (worker_with 10) city_task) city_task None []) =
     Inr (AgentChatResponse ''answer to: q'', True)"
    using run_step_is_done [OF r1 c1] by (simp add: critic_lib_def)
  have r2: "router_answer (critic_lib (\<lambda>t. True)) (worker_with 10)
     (initialize_state (worker_with 10) city_task) city_task None [] = Inr ''answer to: q''"
    by (simp add: sample_defs)
  have c2: "critic_evaluation (critic_lib (\<lambda>t. True)) (worker_with 10)
     (initialize_state (worker_with 10) city_task) city_task None [] ''answer to: q'' =
     Inr \<lparr>has_error = True, new_question = ''q?'', explanation = ''''\<rparr>"
    by (simp add: sample_defs)
  have d2: "fst (run_step (critic_lib (\<lambda>t. True)) (worker_with 10)
     (initialize_state (worker_with 10) city_task) city_task None []) =
     Inr (AgentChatResponse ''answer to: q'', False)"
    using run_step_is_done [OF r2 c2] by (simp add: critic_lib_def)
  show ?thesis
    by (intro conjI) (rule r1 c1 d1 r2 c2 d2)+
qed

text \<open>
  C7: whenever the router and the critic both return, the pending question \<open>new_input\<close> of
  the state after the step is the \<open>new_question\<close> of the critic's evaluation, whatever the
  state held before and whether or not \<open>has_error\<close> is set.
\<close>

theorem run_step_new_input:
  assumes "router_answer lib self st task inp w = Inr a"
      and "critic_evaluation lib self st task inp w a = Inr ev"
  shows "new_input (fst (snd (run_step lib self st task inp w))) = Some (new_question ev)"
  using assms by (simp add: run_step_completed)

theorem run_step_new_input_witness:
  "router_answer (critic_lib (\<lambda>t. False)) (worker_with 10)
     \<lparr>count = 0, current_reasoning = [], new_input = Some ''pending''\<rparr> city_task None [] =
     Inr ''answer to: pending'' \<and>
   critic_evaluation (critic_lib (\<lambda>t. False)) (worker_with 10)
     \<lparr>count = 0, current_reasoning = [], new_input = Some ''pending''\<rparr> city_task None []
     ''answer to: pending'' =
     Inr \<lparr>has_error = False, new_question = ''pending?'', explanation = ''''\<rparr> \<and>
   new_input (fst (snd (run_step (critic_lib (\<lambda>t. False)) (worker_with 10)
     \<lparr>count = 0, current_reasoning = [], new_input = Some ''pending''\<rparr> city_task None []))) =
     Some ''pending?''"
proof -
  have r: "router_answer (critic_lib (\<lambda>t. False)) (worker_with 10)
     \<lparr>count = 0, current_reasoning = [], new_input = Some ''pending''\<rparr> city_task None [] =
     Inr ''answer to: pending''"
    by (simp add: sample_defs)
  have c: "critic_evaluation (critic_lib (\<lambda>t. False)) (worker_with 10)
     \<lparr>count = 0, current_reasoning = [], new_input = Some ''pending''\<rparr> city_task None []
     ''answer to: pending'' =
     Inr \<lparr>has_error = False, new_question = ''pending?'', explanation = ''''\<rparr>"
    by (simp add: sample_defs)
  have d: "new_input (fst (snd (run_step (critic_lib (\<lambda>t. False)) (worker_with 10)
     \<lparr>count = 0, current_reasoning = [], new_input = Some ''pending''\<rparr> city_task None []))) =
     Some ''pending?''"
    using run_step_new_input [OF r c] by simp
  show ?thesis
    by (intro conjI) (rule r c d)+
qed

text \<open>
  C5: the one question a step puts to the router is the question by priority (the
  override if one is given, otherwise the pending question stored in the state if there
  is one, otherwise the task's input): changing what the router would answer to any
  other question changes nothing, an exception of the router on that question is the
  step's exception, and an answer to it is appended to the transcript after that
  question. An override is not stored: a step that raises leaves the pending question as
  it was, and after a step that completes the pending question is the critic's
  \<open>new_question\<close>, which is then the question by priority of the next step without an
  override.
\<close>

theorem run_step_question_priority:
  "(\<forall>lib'. str lib' = str lib \<and> llm_program lib' = llm_program lib \<and>
       router_answer lib' self st task inp w = router_answer lib self st task inp w \<longrightarrow>
       run_step lib' self st task inp w = run_step lib self st task inp w) \<and>
   (\<forall>e. router_answer lib self st task inp w = Inl e \<longrightarrow>
       fst (run_step lib self st task inp w) = Inl e \<and>
       new_input (fst (snd (run_step lib self st task inp w))) = new_input st) \<and>
   (\<forall>a. router_answer lib self st task inp w = Inr a \<longrightarrow>
       current_reasoning (fst (snd (run_step lib self st task inp w))) =
         current_reasoning st @
           [(''user'', question_by_priority inp st task), (''assistant'', str lib a)]) \<and>
   (\<forall>a e. router_answer lib self st task inp w = Inr a \<and>
       critic_evaluation lib self st task inp w a = Inl e \<longrightarrow>
       new_input (fst (snd (run_step lib self st task inp w))) = new_input st) \<and>
   (\<forall>a ev. router_answer lib self st task inp w = Inr a \<and>
       critic_evaluation lib self st task inp w a = Inr ev \<longrightarrow>
       new_input (fst (snd (run_step lib self st task inp w))) = Some (new_question ev) \<and>
       question_by_priority None (fst (snd (run_step lib self st task inp w))) task =
         new_question ev)"
proof (intro conjI allI impI)
  fix lib' :: "'a library"
  assume "str lib' = str lib \<and> llm_program lib' = llm_program lib \<and>
       router_answer lib' self st task inp w = router_answer lib self st task inp w"
  then show "run_step lib' self st task inp w = run_step lib self st task inp w"
    using run_step_router_only_there [where lib' = lib' and lib = lib] by blast
next
  fix e assume "router_answer lib self st task inp w = Inl e"
  then show "fst (run_step lib self st task inp w) = Inl e"
    and "new_input (fst (snd (run_step lib self st task inp w))) = new_input st"
    by (simp_all add: run_step_router_raised)
next
  fix a assume a: "router_answer lib self st task inp w = Inr a"
  show "current_reasoning (fst (snd (run_step lib self st task inp w))) =
         current_reasoning st @
           [(''user'', question_by_priority inp st task), (''assistant'', str lib a)]"
  proof (cases "critic_evaluation lib self st task inp w a")
    case (Inl e)
    with a show ?thesis by (simp add: run_step_critic_raised)
  next
    case (Inr ev)
    with a show ?thesis by (simp add: run_step_completed)
  qed
next
  fix a e
  assume "router_answer lib self st task inp w = Inr a \<and>
       critic_evaluation lib self st task inp w a = Inl e"
  then show "new_input (fst (snd (run_step lib self st task inp w))) = new_input st"
    by (simp add: run_step_critic_raised)
next
  fix a ev
  assume "router_answer lib self st task inp w = Inr a \<and>
       critic_evaluation lib self st task inp w a = Inr ev"
  then show "new_input (fst (snd (run_step lib self st task inp w))) = Some (new_question ev)"
    and "question_by_priority None (fst (snd (run_step lib self st task inp w))) task =
         new_question ev"
    by (simp_all add: run_step_completed) (simp add: question_by_priority_def)
qed

theorem run_step_question_priority_witness:
  "str one_answer_lib = str (critic_lib (\<lambda>t. True)) \<and>
   llm_program one_answer_lib = llm_program (critic_lib (\<lambda>t. True)) \<and>
   router_answer one_answer_lib (worker_with 10)
     \<lparr>count = 0, current_reasoning = [], new_input = Some ''pending''\<rparr> city_task
     (Some ''override'') [] =
   router_answer (critic_lib (\<lambda>t. True)) (worker_with 10)
     \<lparr>count = 0, current_reasoning = [], new_input = Some ''pending''\<rparr> city_task
     (Some ''override'') [] \<and>
   run_step one_answer_lib (worker_with 10)
     \<lparr>count = 0, current_reasoning = [], new_input = Some ''pending''\<rparr> city_task
     (Some ''override'') [] =
   run_step (critic_lib (\<lambda>t. True)) (worker_with 10)
     \<lparr>count = 0, current_reasoning = [], new_input = Some ''pending''\<rparr> city_task
     (Some ''override'') [] \<and>
   router_answer (critic_lib (\<lambda>t. True)) (worker_with 10)
     \<lparr>count = 0, current_reasoning = [], new_input = Some ''pending''\<rparr> city_task
     (Some ''override'') [] = Inr ''answer to: override'' \<and>
   critic_evaluation (critic_lib (\<lambda>t. True)) (worker_with 10)
     \<lparr>count = 0, current_reasoning = [], new_input = Some ''pending''\<rparr> city_task
     (Some ''override'') [] ''answer to: override'' =
     Inr \<lparr>has_error = True, new_question = ''override?'', explanation = ''''\<rparr> \<and>
   current_reasoning (fst (snd (run_step (critic_lib (\<lambda>t. True)) (worker_with 10)
     \<lparr>count = 0, current_reasoning = [], new_input = Some ''pending''\<rparr> city_task
     (Some ''override'') []))) =
     [(''user'', ''override''), (''assistant'', ''answer to: override'')] \<and>
   new_input (fst (snd (run_step (critic_lib (\<lambda>t. True)) (worker_with 10)
     \<lparr>count = 0, current_reasoning = [], new_input = Some ''pending''\<rparr> city_task
     (Some ''override'') []))) = Some ''override?'' \<and>
   question_by_priority None (fst (snd (run_step (critic_lib (\<lambda>t. True)) (worker_with 10)
     \<lparr>count = 0, current_reasoning = [], new_input = Some ''pending''\<rparr> city_task
     (Some ''override'') []))) city_task = ''override?''"
proof -
  define st where "st = \<lparr>count = 0, current_reasoning = [], new_input = Some ''pending''\<rparr>"
  define lib where "lib = critic_lib (\<lambda>t. True)"
  note facts = run_step_question_priority [where lib = lib and self = "worker_with 10" and st = st
      and task = city_task and inp = "Some ''override''" and w = "[]"]
  have s: "str one_answer_lib = str lib"
    by (simp add: lib_def sample_defs)
  have l: "llm_program one_answer_lib = llm_program lib"
    by (simp add: lib_def sample_defs)
  have r: "router_answer lib (worker_with 10) st city_task (Some ''override'') [] =
             Inr ''answer to: override''"
    by (simp add: lib_def st_def sample_defs)
  have r': "router_answer one_answer_lib (worker_with 10) st city_task (Some ''override'') [] =
            router_answer lib (worker_with 10) st city_task (Some ''override'') []"
    by (simp add: lib_def st_def sample_defs)
  have c: "critic_evaluation lib (worker_with 10) st city_task (Some ''override'') []
             ''answer to: override'' =
           Inr \<lparr>has_error = True, new_question = ''override?'', explanation = ''''\<rparr>"
    by (simp add: lib_def st_def sample_defs)
  from facts [THEN conjunct1, rule_format, of one_answer_lib, OF conjI [OF s conjI [OF l r']]]
  have same: "run_step one_answer_lib (worker_with 10) st city_task (Some ''override'') [] =
      run_step lib (worker_with 10) st city_task (Some ''override'') []" .
  from facts [THEN conjunct2, THEN conjunct2, THEN conjunct1, rule_format, OF r]
  have tr: "current_reasoning (fst (snd (run_step lib (worker_with 10) st city_task
      (Some ''override'') []))) = [(''user'', ''override''), (''assistant'', ''answer to: override'')]"
    by (simp add: lib_def st_def sample_defs)
  from facts [THEN conjunct2, THEN conjunct2, THEN conjunct2, THEN conjunct2, rule_format, OF conjI, OF r c]
  have nxt: "new_input (fst (snd (run_step lib (worker_with 10) st city_task (Some ''override'') []))) =
               Some ''override?''"
       "question_by_priority None (fst (snd (run_step lib (worker_with 10) st city_task
               (Some ''override'') []))) city_task = ''override?''"
    by simp_all
  show ?thesis
    using s l r' same r c tr nxt unfolding lib_def st_def
    by (intro conjI) assumption+
qed

text \<open>
  C6, as stated, fails: when the router call raises, the step propagates the exception to
  its caller. Nothing is appended to the transcript and the critic is not called.
\<close>

theorem run_step_propagates_router_exception:
  "run_step failing_lib (worker_with 10) (initialize_state (worker_with 10) city_task) city_task None [] =
     (Inl (Raised ''handler failed''), initialize_state (worker_with 10) city_task,
      [Query ''q'' (Inl (Raised ''handler failed''))])"
  by (simp add: failing_lib_step initialize_state_def city_task_def)

text \<open>
  C6, amended: if the router, asked the step's question, returns an answer, whatever
  its text (a handler's report of an error included), the step appends the question and
  the answer to the transcript and gives them to the critic like any other answer: the
  critic's evaluation decides \<open>is_done\<close>, an exception of the critic is the step's
  exception, and nothing else the critic would say matters. If the router call itself
  raises, the step raises the same exception with the state unchanged, and the critic
  is not consulted.
\<close>

theorem run_step_router_outcome:
  "(\<forall>a. router_answer lib self st task inp w = Inr a \<longrightarrow>
       current_reasoning (fst (snd (run_step lib self st task inp w))) =
         current_reasoning st @
           [(''user'', question_by_priority inp st task), (''assistant'', str lib a)] \<and>
       (\<forall>ev. critic_evaluation lib self st task inp w a = Inr ev \<longrightarrow>
          fst (run_step lib self st task inp w) =
            Inr (AgentChatResponse (str lib a), \<not> has_error ev)) \<and>
       (\<forall>e. critic_evaluation lib self st task inp w a = Inl e \<longrightarrow>
          fst (run_step lib self st task inp w) = Inl e) \<and>
       (\<forall>lib'. str lib' = str lib \<and> query lib' = query lib \<and>
          critic_evaluation lib' self st task inp w a = critic_evaluation lib self st task inp w a \<longrightarrow>
          run_step lib' self st task inp w = run_step lib self st task inp w)) \<and>
   (\<forall>e. router_answer lib self st task inp w = Inl e \<longrightarrow>
       fst (run_step lib self st task inp w) = Inl e \<and>
       fst (snd (run_step lib self st task inp w)) = st \<and>
       (\<forall>lib'. str lib' = str lib \<and> query lib' = query lib \<longrightarrow>
          run_step lib' self st task inp w = run_step lib self st task inp w))"
proof (intro conjI allI impI)
  fix a assume a: "router_answer lib self st task inp w = Inr a"
  show "current_reasoning (fst (snd (run_step lib self st task inp w))) =
         current_reasoning st @
           [(''user'', question_by_priority inp st task), (''assistant'', str lib a)]"
  proof (cases "critic_evaluation lib self st task inp w a")
    case (Inl e)
    with a show ?thesis by (simp add: run_step_critic_raised)
  next
    case (Inr ev)
    with a show ?thesis by (simp add: run_step_completed)
  qed
  show "fst (run_step lib self st task inp w) =
            Inr (AgentChatResponse (str lib a), \<not> has_error ev)"
    if "critic_evaluation lib self st task inp w a = Inr ev" for ev
    using a that by (simp add: run_step_completed)
  show "fst (run_step lib self st task inp w) = Inl e"
    if "critic_evaluation lib self st task inp w a = Inl e" for e
    using a that by (simp add: run_step_critic_raised)
  show "run_step lib' self st task inp w = run_step lib self st task inp w"
    if "str lib' = str lib \<and> query lib' = query lib \<and>
          critic_evaluation lib' self st task inp w a = critic_evaluation lib self st task inp w a"
    for lib' :: "'a library"
    using a that run_step_critic_only_there [where lib' = lib' and lib = lib and a = a] by blast
next
  fix e assume e: "router_answer lib self st task inp w = Inl e"
  then show "fst (run_step lib self st task inp w) = Inl e"
    and "fst (snd (run_step lib self st task inp w)) = st"
    by (simp_all add: run_step_router_raised)
  show "run_step lib' self st task inp w = run_step lib self st task inp w"
    if "str lib' = str lib \<and> query lib' = query lib" for lib' :: "'a library"
    using e that by (simp add: run_step_router_raised)
qed

theorem run_step_router_outcome_witness:
  "router_answer (critic_lib (\<lambda>t. False)) (worker_with 10)
     (initialize_state (worker_with 10) city_task) city_task None [] = Inr ''answer to: q'' \<and>
   critic_evaluation (critic_lib (\<lambda>t. False)) (worker_with 10)
     (initialize_state (worker_with 10) city_task) city_task None [] ''answer to: q'' =
     Inr \<lparr>has_error = False, new_question = ''q?'', explanation = ''''\<rparr> \<and>
   current_reasoning (fst (snd (run_step (critic_lib (\<lambda>t. False)) (worker_with 10)
     (initialize_state (worker_with 10) city_task) city_task None []))) =
     [(''user'', ''q''), (''assistant'', ''answer to: q'')] \<and>
   fst (run_step (critic_lib (\<lambda>t. False)) (worker_with 10)
     (initialize_state (worker_with 10) city_task) city_task None []) =
     Inr (AgentChatResponse ''answer to: q'', True) \<and>
   router_answer failing_lib (worker_with 10)
     (initialize_state (worker_with 10) city_task) city_task None [] =
     Inl (Raised ''handler failed'') \<and>
   fst (run_step failing_lib (worker_with 10)
     (initialize_state (worker_with 10) city_task) city_task None []) =
     Inl (Raised ''handler failed'') \<and>
   fst (snd (run_step failing_lib (worker_with 10)
     (initialize_state (worker_with 10) city_task) city_task None [])) =
     initialize_state (worker_with 10) city_task"
proof -
  define st where "st = initialize_state (worker_with 10) city_task"
  define lib where "lib = critic_lib (\<lambda>t. False)"
  have r: "router_answer lib (worker_with 10) st city_task None [] = Inr ''answer to: q''"
    by (simp add: lib_def st_def sample_defs)
  have c: "critic_evaluation lib (worker_with 10) st city_task None [] ''answer to: q'' =
     Inr \<lparr>has_error = False, new_question = ''q?'', explanation = ''''\<rparr>"
    by (simp add: lib_def st_def sample_defs)
  note answered = run_step_router_outcome [where lib = lib and self = "worker_with 10" and st = st
      and task = city_task and inp = None and w = "[]",
      THEN conjunct1, rule_format, OF r]
  from answered [THEN conjunct1] have tr: "current_reasoning (fst (snd (run_step lib (worker_with 10) st city_task None []))) =
     [(''user'', ''q''), (''assistant'', ''answer to: q'')]"
    by (simp add: lib_def st_def sample_defs)
  from answered [THEN conjunct2, THEN conjunct1, rule_format, OF c]
  have out: "fst (run_step lib (worker_with 10) st city_task None []) =
     Inr (AgentChatResponse ''answer to: q'', True)"
    by (simp add: lib_def critic_lib_def)
  have f: "router_answer failing_lib (worker_with 10) st city_task None [] =
     Inl (Raised ''handler failed'')"
    by (simp add: st_def sample_defs)
  note raised = run_step_router_outcome [where lib = failing_lib and self = "worker_with 10" and st = st
      and task = city_task and inp = None and w = "[]",
      THEN conjunct2, rule_format, OF f]
  from raised [THEN conjunct1] have prop1: "fst (run_step failing_lib (worker_with 10) st city_task None []) =
     Inl (Raised ''handler failed'')" .
  from raised [THEN conjunct2, THEN conjunct1]
  have prop2: "fst (snd (run_step failing_lib (worker_with 10) st city_task None [])) = st" .
  show ?thesis
    using r c tr out f prop1 prop2 unfolding lib_def st_def
    by (intro conjI) assumption+
qed

text \<open>
  C10: two workers that differ only in \<open>max_iterations\<close> give the same result, the same
  state and the same calls in each of the three operations, on the same inputs.
\<close>

theorem max_iterations_never_read:
  "initialize_state (self\<lparr>max_iterations := n\<rparr>) task = initialize_state self task \<and>
   run_step lib (self\<lparr>max_iterations := n\<rparr>) st task inp w = run_step lib self st task inp w \<and>
   finalize_task (self\<lparr>max_iterations := n\<rparr>) st = finalize_task self st"
  by (simp add: initialize_state_def run_step_def finalize_task_def Let_def split: sum.splits)

section \<open>Sequences of steps\<close>

lemma completed_count_append:
  "completed_count (xs @ ys) = completed_count xs + completed_count ys"
  by (simp add: completed_count_def)

lemma completed_count_take_less:
  assumes "j < length outs" and "\<not> isl (outs ! j)"
  shows "completed_count (take j outs) < completed_count outs"
proof -
  have "outs = take j outs @ outs ! j # drop (Suc j) outs"
    using assms(1) by (rule id_take_nth_drop)
  then have "completed_count outs =
      completed_count (take j outs) + completed_count (outs ! j # drop (Suc j) outs)"
    by (metis completed_count_append)
  with assms(2) show ?thesis
    by (simp add: completed_count_def)
qed

lemma run_steps_append:
  "run_steps lib self task (xs @ ys) st w =
     (case run_steps lib self task xs st w of
        (outs1, st1, w1) \<Rightarrow>
          (case run_steps lib self task ys st1 w1 of
             (outs2, st2, w2) \<Rightarrow> (outs1 @ outs2, st2, w2)))"
  by (induction xs arbitrary: st w) (auto split: prod.splits)

text \<open>When the critic never raises, a step either raises at the router and leaves the
  transcript alone, or completes and appends its question and its answer.\<close>

lemma run_step_transcript:
  assumes critic: "\<And>l v t q r. \<not> isl (llm_program lib l v t q r)"
      and step: "run_step lib self st task inp w = (out, st', w')"
  shows "(isl out \<and> current_reasoning st' = current_reasoning st) \<or>
         (\<exists>s d. out = Inr (AgentChatResponse s, d) \<and>
            current_reasoning st' =
              current_reasoning st @
                [(''user'', question_by_priority inp st task), (''assistant'', s)])"
proof (cases "router_answer lib self st task inp w")
  case (Inl e)
  from run_step_router_raised [OF this] step show ?thesis
    by simp
next
  case a: (Inr a)
  have returns: "\<not> isl (critic_evaluation lib self st task inp w a)"
    by (rule critic)
  show ?thesis
  proof (cases "critic_evaluation lib self st task inp w a")
    case (Inl e)
    with returns show ?thesis by simp
  next
    case (Inr ev)
    from run_step_completed [OF a this] step show ?thesis
      by auto
  qed
qed

text \<open>
  C4, as stated, fails: the step extends the transcript before it calls the critic.
  When the critic raises in the first invocation and the second invocation completes,
  one invocation has completed and the transcript has four entries.
\<close>

theorem transcript_longer_after_critic_exception:
  "fst (run_steps flaky_critic_lib (worker_with 10) city_task [None, None]
          (initialize_state (worker_with 10) city_task) []) =
     [Inl (Raised ''malformed output''), Inr (AgentChatResponse ''answer to: q'', True)] \<and>
   current_reasoning (fst (snd (run_steps flaky_critic_lib (worker_with 10) city_task [None, None]
          (initialize_state (worker_with 10) city_task) []))) =
     [(''user'', ''q''), (''assistant'', ''answer to: q''),
      (''user'', ''q''), (''assistant'', ''answer to: q'')]"
  by (simp add: run_step_def flaky_critic_lib_def Let_def worker_with_def city_task_def
        initialize_state_def)

text \<open>
  C4, amended: provided the critic never raises, after any sequence of step invocations
  from the initial state (invocations that raise at the router included) the transcript
  has exactly \<open>2 * k\<close> entries, \<open>k\<close> the number of invocations that completed; the entries
  alternate between user and assistant; and the two entries of the invocation that
  completed as number \<open>i\<close> are the user entry with that invocation's question by
  priority, at index \<open>2 * i\<close>, and the assistant entry with the answer it returned, at
  index \<open>2 * i + 1\<close>.
\<close>

theorem transcript_after_steps:
  assumes critic: "\<And>l v t q r. \<not> isl (llm_program lib l v t q r)"
      and run: "run_steps lib self task inps (initialize_state self task) w = (outs, st', w')"
  shows "length (current_reasoning st') = 2 * completed_count outs \<and>
         (\<forall>i < completed_count outs.
            fst (current_reasoning st' ! (2 * i)) = ''user'' \<and>
            fst (current_reasoning st' ! (2 * i + 1)) = ''assistant'') \<and>
         (\<forall>j < length inps. \<not> isl (outs ! j) \<longrightarrow>
            current_reasoning st' ! (2 * completed_count (take j outs)) =
              (''user'',
               question_by_priority (inps ! j)
                 (fst (snd (run_steps lib self task (take j inps) (initialize_state self task) w)))
                 task) \<and>
            current_reasoning st' ! (2 * completed_count (take j outs) + 1) =
              (''assistant'', response (fst (projr (outs ! j)))))"
proof -
  let ?S0 = "initialize_state self task"
  let ?before = "\<lambda>inps j. fst (snd (run_steps lib self task (take j inps) ?S0 w))"
  have inv: "length outs = length inps \<and>
         length (current_reasoning st') = 2 * completed_count outs \<and>
         (\<forall>i < completed_count outs.
            fst (current_reasoning st' ! (2 * i)) = ''user'' \<and>
            fst (current_reasoning st' ! (2 * i + 1)) = ''assistant'') \<and>
         (\<forall>j < length inps. \<not> isl (outs ! j) \<longrightarrow>
            current_reasoning st' ! (2 * completed_count (take j outs)) =
              (''user'', question_by_priority (inps ! j) (?before inps j) task) \<and>
            current_reasoning st' ! (2 * completed_count (take j outs) + 1) =
              (''assistant'', response (fst (projr (outs ! j)))))"
    if "run_steps lib self task inps ?S0 w = (outs, st', w')" for inps outs st' w'
    using that
  proof (induction inps arbitrary: outs st' w' rule: rev_induct)
    case Nil
    then show ?case
      by (auto simp: initialize_state_def completed_count_def)
  next
    case (snoc inp inps)
    obtain outs0 st1 w1 where r0: "run_steps lib self task inps ?S0 w = (outs0, st1, w1)"
      by (cases "run_steps lib self task inps ?S0 w") auto
    obtain out st2 w2 where s: "run_step lib self st1 task inp w1 = (out, st2, w2)"
      by (cases "run_step lib self st1 task inp w1") auto
    from snoc.prems r0 s have outs: "outs = outs0 @ [out]" and st': "st' = st2"
      by (simp_all add: run_steps_append)
    note IH = snoc.IH [OF r0]
    from IH have len0: "length outs0 = length inps"
      by (rule conjunct1)
    from IH have tr0: "length (current_reasoning st1) = 2 * completed_count outs0"
      by (rule conjunct2 [THEN conjunct1])
    from IH have roles0: "fst (current_reasoning st1 ! (2 * i)) = ''user'' \<and>
            fst (current_reasoning st1 ! (2 * i + 1)) = ''assistant''"
      if "i < completed_count outs0" for i
      using that by blast
    from IH have entries0: "current_reasoning st1 ! (2 * completed_count (take j outs0)) =
              (''user'', question_by_priority (inps ! j) (?before inps j) task) \<and>
            current_reasoning st1 ! (2 * completed_count (take j outs0) + 1) =
              (''assistant'', response (fst (projr (outs0 ! j))))"
      if "j < length inps" and "\<not> isl (outs0 ! j)" for j
      using that by blast
    have before_old: "?before (inps @ [inp]) j = ?before inps j" if "j < length inps" for j
      using that by simp
    have before_new: "?before (inps @ [inp]) (length inps) = st1"
      using r0 by simp
    have old: "(outs0 @ [out]) ! j = outs0 ! j" "take j (outs0 @ [out]) = take j outs0"
        "(inps @ [inp]) ! j = inps ! j"
      if "j < length inps" for j
      using that len0 by (simp_all add: nth_append)
    have new: "(outs0 @ [out]) ! length inps = out" "take (length inps) (outs0 @ [out]) = outs0"
        "(inps @ [inp]) ! length inps = inp"
      using len0 by (simp_all add: nth_append)
    have below: "2 * completed_count (take j outs0) + 1 < length (current_reasoning st1)"
      if "j < length inps" and "\<not> isl (outs0 ! j)" for j
      using completed_count_take_less [of j outs0] that len0 tr0 by simp
    have len: "length outs = length (inps @ [inp])"
      using outs len0 by simp
    from run_step_transcript [OF critic s] show ?case
    proof (elim disjE conjE exE)
      assume raised: "isl out" and same: "current_reasoning st2 = current_reasoning st1"
      have count: "completed_count outs = completed_count outs0"
        using raised outs by (simp add: completed_count_def)
      have "length (current_reasoning st') = 2 * completed_count outs"
        using tr0 same st' count by simp
      moreover have "fst (current_reasoning st' ! (2 * i)) = ''user'' \<and>
            fst (current_reasoning st' ! (2 * i + 1)) = ''assistant''"
        if "i < completed_count outs" for i
        using roles0 [of i] that same st' count by simp
      moreover have "current_reasoning st' ! (2 * completed_count (take j outs)) =
              (''user'', question_by_priority ((inps @ [inp]) ! j) (?before (inps @ [inp]) j) task) \<and>
            current_reasoning st' ! (2 * completed_count (take j outs) + 1) =
              (''assistant'', response (fst (projr (outs ! j))))"
        if j: "j < length (inps @ [inp])" and done_j: "\<not> isl (outs ! j)" for j
      proof (cases "j < length inps")
        case True
        with done_j have "\<not> isl (outs0 ! j)"
          by (simp add: outs old)
        from entries0 [OF True this] show ?thesis
          by (simp only: outs st' same old [OF True] before_old [OF True])
      next
        case False
        with j have "j = length inps" by simp
        with done_j raised show ?thesis
          by (simp add: outs new)
      qed
      ultimately show ?case
        using len by blast
    next
      fix s' d
      assume out: "out = Inr (AgentChatResponse s', d)"
        and ext: "current_reasoning st2 =
              current_reasoning st1 @
                [(''user'', question_by_priority inp st1 task), (''assistant'', s')]"
      have count: "completed_count outs = Suc (completed_count outs0)"
        using out outs by (simp add: completed_count_def)
      have "length (current_reasoning st') = 2 * completed_count outs"
        using tr0 ext st' count by simp
      moreover have "fst (current_reasoning st' ! (2 * i)) = ''user'' \<and>
            fst (current_reasoning st' ! (2 * i + 1)) = ''assistant''"
        if "i < completed_count outs" for i
      proof (cases "i < completed_count outs0")
        case True
        then have "2 * i + 1 < length (current_reasoning st1)"
          using tr0 by simp
        with roles0 [OF True] show ?thesis
          by (simp add: st' ext nth_append)
      next
        case False
        with that count have "i = completed_count outs0" by simp
        then have "2 * i = length (current_reasoning st1)"
          using tr0 by simp
        then show ?thesis
          by (simp add: st' ext nth_append)
      qed
      moreover have "current_reasoning st' ! (2 * completed_count (take j outs)) =
              (''user'', question_by_priority ((inps @ [inp]) ! j) (?before (inps @ [inp]) j) task) \<and>
            current_reasoning st' ! (2 * completed_count (take j outs) + 1) =
              (''assistant'', response (fst (projr (outs ! j))))"
        if j: "j < length (inps @ [inp])" and done_j: "\<not> isl (outs ! j)" for j
      proof (cases "j < length inps")
        case True
        with done_j have done0: "\<not> isl (outs0 ! j)"
          by (simp add: outs old)
        from below [OF True done0]
        have "(current_reasoning st1 @
                [(''user'', question_by_priority inp st1 task), (''assistant'', s')]) !
                (2 * completed_count (take j outs0)) =
              current_reasoning st1 ! (2 * completed_count (take j outs0))"
          and "(current_reasoning st1 @
                [(''user'', question_by_priority inp st1 task), (''assistant'', s')]) !
                (2 * completed_count (take j outs0) + 1) =
              current_reasoning st1 ! (2 * completed_count (take j outs0) + 1)"
          by (simp_all add: nth_append)
        with entries0 [OF True done0] show ?thesis
          by (simp only: outs st' ext old [OF True] before_old [OF True])
      next
        case False
        with j have j_eq: "j = length inps" by simp
        have here: "take j outs = outs0" "outs ! j = out" "(inps @ [inp]) ! j = inp"
            "?before (inps @ [inp]) j = st1"
          unfolding j_eq outs using new before_new by simp_all
        have "(current_reasoning st1 @
                [(''user'', question_by_priority inp st1 task), (''assistant'', s')]) !
                (2 * completed_count outs0) = (''user'', question_by_priority inp st1 task)"
          and "(current_reasoning st1 @
                [(''user'', question_by_priority inp st1 task), (''assistant'', s')]) !
                (2 * completed_count outs0 + 1) = (''assistant'', s')"
          using tr0 by (simp_all add: nth_append)
        then show ?thesis
          unfolding here st' ext by (simp add: out)
      qed
      ultimately show ?case
        using len by blast
    qed
  qed
  from inv [OF run] show ?thesis
    by (rule conjunct2)
qed

lemma one_answer_run:
  "run_steps one_answer_lib (worker_with 10) city_task [None, Some ''override'']
     (initialize_state (worker_with 10) city_task) [] =
   ([Inl (Raised ''handler failed''), Inr (AgentChatResponse ''answer to: override'', False)],
    \<lparr>count = 0,
     current_reasoning = [(''user'', ''override''), (''assistant'', ''answer to: override'')],
     new_input = Some ''override?''\<rparr>,
    [Query ''q'' (Inl (Raised ''handler failed'')),
     Query ''override'' (Inr ''answer to: override''),
     Program (get_chat_prompt_template ''judge''
                [(''user'', ''override''), (''assistant'', ''answer to: override'')])
       ''override'' ''answer to: override''
       (Inr \<lparr>has_error = True, new_question = ''override?'', explanation = ''''\<rparr>)])"
  by (simp add: run_step_def one_answer_lib_def Let_def worker_with_def city_task_def
        initialize_state_def)

theorem transcript_after_steps_witness:
  "fst (run_steps one_answer_lib (worker_with 10) city_task [None, Some ''override'']
          (initialize_state (worker_with 10) city_task) []) =
     [Inl (Raised ''handler failed''), Inr (AgentChatResponse ''answer to: override'', False)] \<and>
   completed_count (fst (run_steps one_answer_lib (worker_with 10) city_task [None, Some ''override'']
          (initialize_state (worker_with 10) city_task) [])) = 1 \<and>
   length (current_reasoning (fst (snd (run_steps one_answer_lib (worker_with 10) city_task
          [None, Some ''override''] (initialize_state (worker_with 10) city_task) [])))) =
     2 * completed_count (fst (run_steps one_answer_lib (worker_with 10) city_task
          [None, Some ''override''] (initialize_state (worker_with 10) city_task) [])) \<and>
   current_reasoning (fst (snd (run_steps one_answer_lib (worker_with 10) city_task
          [None, Some ''override''] (initialize_state (worker_with 10) city_task) []))) !
     (2 * completed_count (take 1 (fst (run_steps one_answer_lib (worker_with 10) city_task
          [None, Some ''override''] (initialize_state (worker_with 10) city_task) [])))) =
     (''user'', ''override'') \<and>
   current_reasoning (fst (snd (run_steps one_answer_lib (worker_with 10) city_task
          [None, Some ''override''] (initialize_state (worker_with 10) city_task) []))) !
     (2 * completed_count (take 1 (fst (run_steps one_answer_lib (worker_with 10) city_task
          [None, Some ''override''] (initialize_state (worker_with 10) city_task) []))) + 1) =
     (''assistant'', ''answer to: override'')"
proof -
  define run where "run = run_steps one_answer_lib (worker_with 10) city_task [None, Some ''override'']
     (initialize_state (worker_with 10) city_task) []"
  have outs: "fst run =
     [Inl (Raised ''handler failed''), Inr (AgentChatResponse ''answer to: override'', False)]"
    unfolding run_def one_answer_run by simp
  have count: "completed_count (fst run) = 1"
    unfolding outs by (simp add: completed_count_def)
  have critic: "\<not> isl (llm_program one_answer_lib l v t q r)" for l v t q r
    by (simp add: one_answer_lib_def)
  have "run_steps one_answer_lib (worker_with 10) city_task [None, Some ''override'']
     (initialize_state (worker_with 10) city_task) [] = (fst run, fst (snd run), snd (snd run))"
    unfolding run_def by (simp del: run_steps.simps)
  note facts = transcript_after_steps [OF critic this]
  from facts have len: "length (current_reasoning (fst (snd run))) = 2 * completed_count (fst run)"
    by (rule conjunct1)
  have second: "1 < length [None, Some ''override'']" "\<not> isl (fst run ! 1)"
    unfolding outs by simp_all
  from facts [THEN conjunct2, THEN conjunct2, rule_format, OF second]
  have entries: "current_reasoning (fst (snd run)) ! (2 * completed_count (take 1 (fst run))) =
       (''user'', ''override'')"
     "current_reasoning (fst (snd run)) ! (2 * completed_count (take 1 (fst run)) + 1) =
       (''assistant'', ''answer to: override'')"
    unfolding outs by (simp_all add: question_by_priority_def del: run_steps.simps)
  show ?thesis
    using outs count len entries unfolding run_def
    by (intro conjI) assumption+
qed

lemma run_step_count: "count (fst (snd (run_step lib self st task inp w))) = count st"
  by (auto simp: run_step_def Let_def split: sum.splits)

lemma run_steps_count:
  "count (fst (snd (run_steps lib self task inps st w))) = count st"
proof (induction inps arbitrary: st w)
  case Nil
  then show ?case by simp
next
  case (Cons inp inps)
  obtain out st1 w1 where step: "run_step lib self st task inp w = (out, st1, w1)"
    by (cases "run_step lib self st task inp w") auto
  then have "count st1 = count st"
    using run_step_count [of lib self st task inp w] by simp
  with Cons.IH [of st1 w1] step show ?case
    by (auto split: prod.splits)
qed

text \<open>
  C8: for a worker whose configured maximum is not negative (every positive budget is),
  the counter of the initial state is within the maximum, and along every sequence of
  step invocations from the initial state the counter never decreases and never exceeds
  the maximum.
\<close>

theorem count_monotone_bounded:
  assumes "0 \<le> max_iterations self"
  shows "count (initialize_state self task) \<le> max_iterations self \<and>
         count (fst (snd (run_steps lib self task inps1 (initialize_state self task) w)))
           \<le> count (fst (snd (run_steps lib self task (inps1 @ inps2) (initialize_state self task) w))) \<and>
         count (fst (snd (run_steps lib self task (inps1 @ inps2) (initialize_state self task) w)))
           \<le> max_iterations self"
  using assms by (simp add: run_steps_count) (simp add: initialize_state_def)

theorem count_monotone_bounded_witness:
  "0 \<le> max_iterations (worker_with 10) \<and>
   count (initialize_state (worker_with 10) city_task) \<le> max_iterations (worker_with 10) \<and>
   count (fst (snd (run_steps (critic_lib (\<lambda>t. True)) (worker_with 10) city_task [None]
                      (initialize_state (worker_with 10) city_task) [])))
     \<le> count (fst (snd (run_steps (critic_lib (\<lambda>t. True)) (worker_with 10) city_task ([None] @ [None])
                      (initialize_state (worker_with 10) city_task) []))) \<and>
   count (fst (snd (run_steps (critic_lib (\<lambda>t. True)) (worker_with 10) city_task ([None] @ [None])
                      (initialize_state (worker_with 10) city_task) [])))
     \<le> max_iterations (worker_with 10)"
proof -
  have budget: "0 \<le> max_iterations (worker_with 10)"
    by (simp add: worker_with_def)
  from count_monotone_bounded [OF budget, where task = city_task and lib = "critic_lib (\<lambda>t. True)"
      and ?inps1.0 = "[None]" and ?inps2.0 = "[None]" and w = "[]"]
    budget show ?thesis
    by simp
qed

section \<open>Construction\<close>






section \<open>The retry loop\<close>

text \<open>With a router that always answers and a critic that always reports an error, the
  loop never returns.\<close>

lemma retry_loop_diverges:
  assumes router: "\<And>r w q. \<exists>a. query lib r w q = Inr a"
      and critic: "\<And>l w t q r. \<exists>ev. llm_program lib l w t q r = Inr ev \<and> has_error ev"
  shows "retry_loop lib self task st w = None"
proof -
  have no_result: "False" if "retry_loop lib' self task st w = Some y" and "lib' = lib"
    for lib' y self task st w
    using that
  proof (induction rule: retry_loop.raw_induct[rotated 1, consumes 1])
    case (1 loop lib' self task st w y)
    obtain out st' w' where rs: "run_step lib self st task None w = (out, st', w')"
      by (cases "run_step lib self st task None w") auto
    have IH: "loop lib b c d e = Some z \<Longrightarrow> False" for b c d e z
      using "1.IH" [OF _ refl] by blast
    have "loop lib self task st' w' = Some y" if "out = Inr (resp, False)" for resp
      using "1.hyps" "1.prems" rs that by simp
    then have not_flagged: "out = Inr (resp, False) \<Longrightarrow> False" for resp
      using IH by blast
    from rs show ?case
    proof (cases rule: run_step_cases)
      case (router_raised q e)
      with router [of "router_query_engine self" w q] show ?thesis by simp
    next
      case (critic_raised q a e)
      with critic [of "llm self" "w @ [Query q (Inr a)]"
          "get_chat_prompt_template (prompt_str self) (current_reasoning st')" q "str lib a"]
      show ?thesis by simp
    next
      case (completed q a ev)
      with critic [of "llm self" "w @ [Query q (Inr a)]"
          "get_chat_prompt_template (prompt_str self) (current_reasoning st')" q "str lib a"]
      have "has_error ev" by simp
      with completed(1) not_flagged show ?thesis by simp
    qed
  qed
  show ?thesis
  proof (cases "retry_loop lib self task st w")
    case None
    then show ?thesis .
  next
    case (Some y)
    from no_result [OF this refl] show ?thesis ..
  qed
qed

text \<open>
  C1, evaluated on the code: with \<open>max_iterations = 1\<close> and a critic that reports an error
  on the first two iterations, the loop returns the third answer after three router
  invocations.
\<close>

theorem retry_loop_exceeds_max_iterations:
  "map_option (\<lambda>(out, st', w'). (out, length (router_queries w')))
     (retry_loop (critic_lib (\<lambda>t. length t < 7)) (worker_with 1) city_task
        (initialize_state (worker_with 1) city_task) []) =
     Some (Inr (AgentChatResponse ''answer to: q??''), 3) \<and>
   max_iterations (worker_with 1) = 1"
  apply (subst retry_loop.simps)
  apply (simp add: critic_lib_step Let_def get_chat_prompt_template_def initialize_state_def city_task_def)
  apply (subst retry_loop.simps)
  apply (simp add: critic_lib_step Let_def get_chat_prompt_template_def)
  apply (subst retry_loop.simps)
  apply (simp add: critic_lib_step Let_def get_chat_prompt_template_def worker_with_def)
  done

text \<open>
  C2, evaluated on the code: with \<open>max_iterations = 2\<close> and a critic that reports an error
  on every iteration, the loop never returns; the steps of iterations 1, 2 and 3 all
  return \<open>is_done = False\<close>.
\<close>

theorem retry_loop_never_exhausts:
  "retry_loop (critic_lib (\<lambda>t. True)) (worker_with 2) city_task
        (initialize_state (worker_with 2) city_task) [] = None \<and>
   max_iterations (worker_with 2) = 2 \<and>
   map (\<lambda>out. snd (projr out))
     (fst (run_steps (critic_lib (\<lambda>t. True)) (worker_with 2) city_task [None, None, None]
        (initialize_state (worker_with 2) city_task) [])) = [False, False, False]"
proof -
  have "retry_loop (critic_lib (\<lambda>t. True)) (worker_with 2) city_task
        (initialize_state (worker_with 2) city_task) [] = None"
    by (rule retry_loop_diverges) (simp_all add: critic_lib_def)
  moreover have "max_iterations (worker_with 2) = 2"
    by (simp add: worker_with_def)
  moreover have "map (\<lambda>out. snd (projr out))
     (fst (run_steps (critic_lib (\<lambda>t. True)) (worker_with 2) city_task [None, None, None]
        (initialize_state (worker_with 2) city_task) [])) = [False, False, False]"
    by (simp add: critic_lib_step Let_def)
  ultimately show ?thesis by simp
qed

end
